theory Spec2Isabelle
  imports Main
begin

section \<open>Strings of the script\<close>

text \<open>
  A JavaScript string is modelled as a HOL \<open>string\<close>: every \<open>char\<close> stands for one
  code unit below 256. The raw content of a mail message is a header block of ASCII
  lines, so this covers the inputs the filters read. Code units above 255 (among them
  the line separators U+2028 and U+2029) are outside the model.
\<close>

definition dq :: char where
  "dq = CHR 0x22"

definition bsl :: char where
  "bsl = CHR 0x5C"

definition nl :: char where
  "nl = CHR 0x0A"

definition cr :: char where
  "cr = CHR 0x0D"

text \<open>\<open>LineTerminator\<close> of the language, as far as it lies below 256.\<close>

definition is_line_terminator :: "char \<Rightarrow> bool" where
  "is_line_terminator c = (c = nl \<or> c = cr)"

text \<open>
  What \<open>String.prototype.trim\<close> strips: tab, line feed, vertical tab, form feed,
  carriage return, space and the no-break space.
\<close>

definition is_ws :: "char \<Rightarrow> bool" where
  "is_ws c = (c \<in> set [CHR 0x09, CHR 0x0A, CHR 0x0B, CHR 0x0C, CHR 0x0D, CHR 0x20, CHR 0xA0])"

definition trim :: "string \<Rightarrow> string" where
  "trim s = rev (dropWhile is_ws (rev (dropWhile is_ws s)))"

text \<open>\<open>s.replace(/_/g, ' ')\<close>\<close>

definition underscores_to_spaces :: "string \<Rightarrow> string" where
  "underscores_to_spaces s = map (\<lambda>c. if c = CHR ''_'' then CHR '' '' else c) s"

text \<open>\<open>s.replace(/\(|\)/g, "_")\<close>\<close>

definition parens_to_underscores :: "string \<Rightarrow> string" where
  "parens_to_underscores s = map (\<lambda>c. if c = CHR ''('' \<or> c = CHR '')'' then CHR ''_'' else c) s"

text \<open>\<open>"\"" + s + "\""\<close>, for the log lines.\<close>

definition quoted :: "string \<Rightarrow> string" where
  "quoted s = dq # s @ [dq]"

text \<open>\<open>String.prototype.includes\<close>\<close>

fun includes_str :: "string \<Rightarrow> string \<Rightarrow> bool" where
  "includes_str [] key = (key = [])"
| "includes_str (c # cs) key = (take (length key) (c # cs) = key \<or> includes_str cs key)"

text \<open>
  \<open>String.prototype.split\<close> with a string separator. \<open>split_go sep acc s\<close> scans
  \<open>s\<close> with the current piece \<open>acc\<close> kept in reverse. With the empty separator the
  string falls into its code units, and the empty string into no piece at all.
\<close>

function split_go :: "string \<Rightarrow> string \<Rightarrow> string \<Rightarrow> string list" where
  "split_go sep acc [] = [rev acc]"
| "split_go sep acc (c # cs) =
     (if sep \<noteq> [] \<and> take (length sep) (c # cs) = sep
      then rev acc # split_go sep [] (drop (length sep) (c # cs))
      else split_go sep (c # acc) cs)"
  by pat_completeness auto
termination
  by (relation "measure (\<lambda>(sep, acc, s). length s)") auto

definition split :: "string \<Rightarrow> string \<Rightarrow> string list" where
  "split s sep = (if sep = [] then map (\<lambda>c. [c]) s else split_go sep [] s)"

section \<open>Regular expressions\<close>

text \<open>
  The patterns of the script use literals, the dot, negated classes, \<open>*\<close> on a single
  character, \<open>?\<close>, groups and the line anchor \<open>^\<close> (flag \<open>m\<close>). They are matched as the
  language does: by backtracking, leftmost start first, \<open>*\<close> and \<open>?\<close> greedy. Every
  starred or optional part of these patterns reads at least one character, so the rule
  of the language that rejects an empty iteration never applies.
\<close>

datatype atom = Lit char | Dot | NotIn string

datatype rx = Eps | A atom | Star atom | Bol | Seq rx rx | Opt rx | Grp nat rx

text \<open>
  Flag \<open>i\<close>: characters are compared after \<open>Canonicalize\<close>, which maps a letter to its
  upper case. No code unit above 127 is mapped to an ASCII one, and the patterns of the
  script are ASCII, so only the ASCII letters are folded here.
\<close>

definition canon :: "bool \<Rightarrow> char \<Rightarrow> char" where
  "canon ci c =
     (if ci then
        (case map_of (zip ''abcdefghijklmnopqrstuvwxyz'' ''ABCDEFGHIJKLMNOPQRSTUVWXYZ'') c of
           Some u \<Rightarrow> u | None \<Rightarrow> c)
      else c)"

fun amatch :: "bool \<Rightarrow> atom \<Rightarrow> char \<Rightarrow> bool" where
  "amatch ci (Lit c) x = (canon ci x = canon ci c)"
| "amatch ci Dot x = (\<not> is_line_terminator x)"
| "amatch ci (NotIn cs) x = (canon ci x \<notin> set (map (canon ci) cs))"

type_synonym caps = "string option list"

text \<open>
  The matcher works on a stack of what is still to be matched: a pattern, or the end of
  group \<open>n\<close>, which began where the rest of the input was \<open>s0\<close>. Its state is the
  character before the current position (none at the start of the input), the rest of
  the input and the captures so far. When the stack is empty the match is complete;
  when a branch fails, the matcher falls back to its next alternative.
\<close>

datatype frame = Match rx | Close nat string

fun wt :: "rx \<Rightarrow> nat" where
  "wt (Seq r1 r2) = wt r1 + wt r2 + 1"
| "wt (Opt r) = wt r + 1"
| "wt (Grp n r) = wt r + 2"
| "wt r = 1"

fun fwt :: "frame \<Rightarrow> nat" where
  "fwt (Match r) = wt r"
| "fwt (Close n s0) = 1"

definition at_line_start :: "char option \<Rightarrow> bool" where
  "at_line_start p = (case p of None \<Rightarrow> True | Some c \<Rightarrow> is_line_terminator c)"

text \<open>The text between a position with rest \<open>s\<close> and a later one with rest \<open>s'\<close>.\<close>

definition consumed :: "string \<Rightarrow> string \<Rightarrow> string" where
  "consumed s s' = take (length s - length s') s"

function mt :: "bool \<Rightarrow> frame list \<Rightarrow> char option \<Rightarrow> string \<Rightarrow> caps \<Rightarrow> caps option" where
  "mt ci [] p s c = Some c"
| "mt ci (Close n s0 # k) p s c = mt ci k p s (c[n := Some (consumed s0 s)])"
| "mt ci (Match Eps # k) p s c = mt ci k p s c"
| "mt ci (Match (A a) # k) p [] c = None"
| "mt ci (Match (A a) # k) p (x # xs) c =
     (if amatch ci a x then mt ci k (Some x) xs c else None)"
| "mt ci (Match (Star a) # k) p [] c = mt ci k p [] c"
| "mt ci (Match (Star a) # k) p (x # xs) c =
     (if amatch ci a x
      then (case mt ci (Match (Star a) # k) (Some x) xs c of
              Some res \<Rightarrow> Some res
            | None \<Rightarrow> mt ci k p (x # xs) c)
      else mt ci k p (x # xs) c)"
| "mt ci (Match Bol # k) p s c = (if at_line_start p then mt ci k p s c else None)"
| "mt ci (Match (Seq r1 r2) # k) p s c = mt ci (Match r1 # Match r2 # k) p s c"
| "mt ci (Match (Opt r) # k) p s c =
     (case mt ci (Match r # k) p s c of Some res \<Rightarrow> Some res | None \<Rightarrow> mt ci k p s c)"
| "mt ci (Match (Grp n r) # k) p s c = mt ci (Match r # Close n s # k) p s c"
  by pat_completeness auto
termination
  by (relation "measures [\<lambda>(ci, k, p, s, c). sum_list (map fwt k), \<lambda>(ci, k, p, s, c). length s]")
    auto

text \<open>
  \<open>search_from\<close> tries the start positions from left to right. Group 0 is the whole
  match, so the result reads like the array of \<open>String.prototype.match\<close>: \<open>g ! 1\<close> is
  \<open>match[1]\<close>, and \<open>None\<close> there is \<open>undefined\<close>.
\<close>

fun search_from :: "bool \<Rightarrow> rx \<Rightarrow> nat \<Rightarrow> char option \<Rightarrow> string \<Rightarrow> caps option" where
  "search_from ci r n p [] = mt ci [Match (Grp 0 r)] p [] (replicate n None)"
| "search_from ci r n p (x # xs) =
     (case mt ci [Match (Grp 0 r)] p (x # xs) (replicate n None) of
        Some g \<Rightarrow> Some g
      | None \<Rightarrow> search_from ci r n (Some x) xs)"

text \<open>\<open>s.match(r)\<close> for a pattern \<open>r\<close> with \<open>n - 1\<close> groups; \<open>ci\<close> is flag \<open>i\<close>.\<close>

definition js_match :: "bool \<Rightarrow> rx \<Rightarrow> nat \<Rightarrow> string \<Rightarrow> caps option" where
  "js_match ci r n s = search_from ci r n None s"

fun seqs :: "rx list \<Rightarrow> rx" where
  "seqs [] = Eps"
| "seqs [r] = r"
| "seqs (r # rs) = Seq r (seqs rs)"

definition lits :: "string \<Rightarrow> rx" where
  "lits s = seqs (map (\<lambda>c. A (Lit c)) s)"

text \<open>\<open>match[i]\<close>: an index beyond the array reads \<open>undefined\<close>.\<close>

definition grp :: "caps \<Rightarrow> nat \<Rightarrow> string option" where
  "grp a i = (if i < length a then a ! i else None)"

text \<open>Truthiness of a string that may be \<open>undefined\<close> or \<open>null\<close>.\<close>

definition truthy :: "string option \<Rightarrow> bool" where
  "truthy v = (case v of None \<Rightarrow> False | Some s \<Rightarrow> s \<noteq> [])"

text \<open>A value inside a template literal.\<close>

definition interp :: "string option \<Rightarrow> string" where
  "interp v = (case v of None \<Rightarrow> ''undefined'' | Some s \<Rightarrow> s)"

text \<open>
  A match array inside a template literal: \<open>null\<close> prints as such, an array prints its
  elements joined by commas, \<open>undefined\<close> as the empty string.
\<close>

fun join_commas :: "string list \<Rightarrow> string" where
  "join_commas [] = []"
| "join_commas [x] = x"
| "join_commas (x # xs) = x @ '','' @ join_commas xs"

definition interp_match :: "caps option \<Rightarrow> string" where
  "interp_match v =
     (case v of None \<Rightarrow> ''null''
      | Some a \<Rightarrow> join_commas (map (\<lambda>e. case e of None \<Rightarrow> [] | Some s \<Rightarrow> s) a))"

section \<open>The mail store\<close>

text \<open>
  \<open>GmailApp\<close>, its threads, messages and labels are the collaborators of the script.
  A message and a thread are the values their getters return. The store is the list of
  the user labels that exist, the calls made on threads so far, and the console. The
  calls on a thread (\<open>addLabel\<close>, the marks and the moves) are taken to succeed; of the
  calls on \<open>GmailApp\<close>, \<open>createLabel\<close> may throw.
\<close>

record message =
  raw :: string
  subject :: string
  date :: string
  sender :: string

record thread =
  tid :: string
  firstMessageSubject :: string
  messages :: "message list"

datatype label = Label (getName: string)

datatype call =
    AddLabel string string
  | MarkImportant string
  | MarkUnimportant string
  | MoveToInbox string
  | MoveToArchive string

datatype console_line = ConsoleError string | ConsoleWarn string | ConsoleInfo string

record gmail =
  user_labels :: "string list"
  calls :: "call list"
  console :: "console_line list"

text \<open>
  What is thrown: the exception of \<open>GmailApp.createLabel\<close> for a name the store
  refuses, and the \<open>Error\<close> objects the script makes itself.
\<close>

datatype error = LabelCreationError string | JsError string

type_synonym 'a result = "(error + 'a) \<times> gmail"

definition console_error :: "string \<Rightarrow> gmail \<Rightarrow> gmail" where
  "console_error s g = g\<lparr>console := console g @ [ConsoleError s]\<rparr>"

definition console_warn :: "string \<Rightarrow> gmail \<Rightarrow> gmail" where
  "console_warn s g = g\<lparr>console := console g @ [ConsoleWarn s]\<rparr>"

definition console_info :: "string \<Rightarrow> gmail \<Rightarrow> gmail" where
  "console_info s g = g\<lparr>console := console g @ [ConsoleInfo s]\<rparr>"

definition getUserLabelByName :: "gmail \<Rightarrow> string \<Rightarrow> label option" where
  "getUserLabelByName g n = (if n \<in> set (user_labels g) then Some (Label n) else None)"

text \<open>
  Which names the store accepts is not part of the repository: \<open>cre\<close> says for which
  names \<open>GmailApp.createLabel\<close> succeeds.
\<close>

definition createLabel :: "(string \<Rightarrow> bool) \<Rightarrow> string \<Rightarrow> gmail \<Rightarrow> label result" where
  "createLabel cre n g =
     (if cre n then (Inr (Label n), g\<lparr>user_labels := user_labels g @ [n]\<rparr>)
      else (Inl (LabelCreationError n), g))"

definition addLabel :: "thread \<Rightarrow> label \<Rightarrow> gmail \<Rightarrow> gmail" where
  "addLabel t l g = g\<lparr>calls := calls g @ [AddLabel (tid t) (getName l)]\<rparr>"

definition markImportant :: "thread \<Rightarrow> gmail \<Rightarrow> gmail" where
  "markImportant t g = g\<lparr>calls := calls g @ [MarkImportant (tid t)]\<rparr>"

definition markUnimportant :: "thread \<Rightarrow> gmail \<Rightarrow> gmail" where
  "markUnimportant t g = g\<lparr>calls := calls g @ [MarkUnimportant (tid t)]\<rparr>"

definition moveToInbox :: "thread \<Rightarrow> gmail \<Rightarrow> gmail" where
  "moveToInbox t g = g\<lparr>calls := calls g @ [MoveToInbox (tid t)]\<rparr>"

definition moveToArchive :: "thread \<Rightarrow> gmail \<Rightarrow> gmail" where
  "moveToArchive t g = g\<lparr>calls := calls g @ [MoveToArchive (tid t)]\<rparr>"

section \<open>AbstractGMailFilter\<close>

text \<open>
  \<open>Array.prototype.findIndex\<close>: the first index whose element satisfies the
  predicate, or -1.
\<close>

fun findIndex :: "('a \<Rightarrow> bool) \<Rightarrow> 'a list \<Rightarrow> int" where
  "findIndex P [] = -1"
| "findIndex P (x # xs) =
     (if P x then 0 else (let i = findIndex P xs in if i < 0 then -1 else i + 1))"

text \<open>
  \<open>_uniqLabels\<close>: the filter callback sees the element, its index and the whole array;
  \<open>null\<close> is \<open>None\<close>.
\<close>

definition same_name :: "label \<Rightarrow> label option \<Rightarrow> bool" where
  "same_name current l = (case l of None \<Rightarrow> False | Some l' \<Rightarrow> getName l' = getName current)"

definition uniq_keep :: "label option list \<Rightarrow> label option \<times> nat \<Rightarrow> label option" where
  "uniq_keep self ci =
     (case fst ci of None \<Rightarrow> None
      | Some current \<Rightarrow>
          if findIndex (same_name current) self = int (snd ci) then Some current else None)"

definition uniqLabels :: "label option list \<Rightarrow> label list" where
  "uniqLabels labels = List.map_filter (uniq_keep labels) (zip labels [0 ..< length labels])"

text \<open>\<open>_getOrCreateLabel\<close>\<close>

definition getOrCreateLabel :: "(string \<Rightarrow> bool) \<Rightarrow> string \<Rightarrow> gmail \<Rightarrow> label result" where
  "getOrCreateLabel cre labelStr g =
     (let sanitizedLabelStr = parens_to_underscores labelStr in
      case getUserLabelByName g sanitizedLabelStr of
        Some l \<Rightarrow> (Inr l, g)
      | None \<Rightarrow>
          (case createLabel cre sanitizedLabelStr g of
             (Inr l, g') \<Rightarrow> (Inr l, g')
           | (Inl e, g') \<Rightarrow>
               (Inl e, console_error (''Error while creating label '' @ quoted sanitizedLabelStr) g')))"

text \<open>
  \<open>_getOrCreateLabelHierarchy\<close>: the \<open>reduce\<close> over the pieces, started with \<open>null\<close>; an
  exception ends it.
\<close>

fun reduce_labels :: "(string \<Rightarrow> bool) \<Rightarrow> label option \<Rightarrow> string list \<Rightarrow> gmail \<Rightarrow> label option result" where
  "reduce_labels cre currentLabel [] g = (Inr currentLabel, g)"
| "reduce_labels cre currentLabel (l # ls) g =
     (case (case currentLabel of
              Some cur \<Rightarrow> getOrCreateLabel cre (getName cur @ ''/'' @ l) g
            | None \<Rightarrow> getOrCreateLabel cre l g) of
        (Inl e, g') \<Rightarrow> (Inl e, g')
      | (Inr lab, g') \<Rightarrow> reduce_labels cre (Some lab) ls g')"

definition getOrCreateLabelHierarchy :: "(string \<Rightarrow> bool) \<Rightarrow> string \<Rightarrow> string \<Rightarrow> gmail \<Rightarrow> label option result" where
  "getOrCreateLabelHierarchy cre labelName separator g =
     reduce_labels cre None (split labelName separator) g"

text \<open>
  \<open>thread.getMessages().map(m => ...)\<close> with a callback that reads and writes the
  store and may throw.
\<close>

fun map_messages :: "(message \<Rightarrow> gmail \<Rightarrow> label option result) \<Rightarrow> message list \<Rightarrow> gmail \<Rightarrow> label option list result" where
  "map_messages f [] g = (Inr [], g)"
| "map_messages f (m # ms) g =
     (case f m g of
        (Inl e, g') \<Rightarrow> (Inl e, g')
      | (Inr l, g') \<Rightarrow>
          (case map_messages f ms g' of
             (Inl e, g'') \<Rightarrow> (Inl e, g'')
           | (Inr ls, g'') \<Rightarrow> (Inr (l # ls), g'')))"

section \<open>The four filters\<close>

datatype filter = MailmanFilter nat | GitHubFilter nat | GitLabFilter nat | BugzillaFilter nat

fun searchMax :: "filter \<Rightarrow> nat" where
  "searchMax (MailmanFilter n) = n"
| "searchMax (GitHubFilter n) = n"
| "searchMax (GitLabFilter n) = n"
| "searchMax (BugzillaFilter n) = n"

fun searchQuery :: "filter \<Rightarrow> string" where
  "searchQuery (MailmanFilter n) =
     ''from:*@eclipse.org'' @
     '' AND NOT from:gitlab@gitlab.eclipse.org'' @
     '' AND NOT from:gerrit@eclipse.org'' @
     '' AND NOT from:gerrit@foundation.eclipse.org'' @
     '' AND NOT from:hudson@eclipse.org'' @
     '' AND NOT from:webmaster@eclipse.org'' @
     '' AND NOT from:sabot@*'' @
     '' AND NOT in:Sent'' @
     '' AND after:2019/01/01 '' @
     '' AND has:nouserlabels''"
| "searchQuery (GitHubFilter n) = ''from:notifications@github.com AND has:nouserlabels''"
| "searchQuery (GitLabFilter n) = ''from:gitlab@gitlab.eclipse.org AND has:nouserlabels''"
| "searchQuery (BugzillaFilter n) =
     ''(from:bugzilla-daemon@polarsys.org'' @
     '' OR from:bugzilla-daemon@eclipse.org'' @
     '' OR bugzilla-daemon@locationtech.org)'' @
     '' AND has:nouserlabels''"

subsection \<open>MailmanFilter\<close>

text \<open>\<open>/^List-ID: [^<]*<([^>]*)\.eclipse\.org>/mi\<close>\<close>

definition rx_mailman_list_id :: rx where
  "rx_mailman_list_id =
     seqs [Bol, lits ''List-ID: '', Star (NotIn ''<''), A (Lit CHR ''<''),
           Grp 1 (Star (NotIn ''>'')), lits ''.eclipse.org>'']"

text \<open>\<open>/^X-Report-Abuse-To:(.*hubspot.*)/mi\<close>\<close>

definition rx_hubspot :: rx where
  "rx_hubspot =
     seqs [Bol, lits ''X-Report-Abuse-To:'', Grp 1 (seqs [Star Dot, lits ''hubspot'', Star Dot])]"

text \<open>\<open>/^X-Mailer: *(.*mailchimp.*)/mi\<close>\<close>

definition rx_mailchimp :: rx where
  "rx_mailchimp =
     seqs [Bol, lits ''X-Mailer:'', Star (Lit CHR '' ''),
           Grp 1 (seqs [Star Dot, lits ''mailchimp'', Star Dot])]"

text \<open>\<open>/^X-Jenkins-Result: *(.*)/mi\<close>\<close>

definition rx_jenkins :: rx where
  "rx_jenkins = seqs [Bol, lits ''X-Jenkins-Result:'', Star (Lit CHR '' ''), Grp 1 (Star Dot)]"

text \<open>\<open>/^Sender:[^<]*<(calendar-notification@google.com)>.*/mi\<close>; its dot is not escaped.\<close>

definition rx_gcal :: rx where
  "rx_gcal =
     seqs [Bol, lits ''Sender:'', Star (NotIn ''<''), A (Lit CHR ''<''),
           Grp 1 (seqs [lits ''calendar-notification@google'', A Dot, lits ''com'']),
           A (Lit CHR ''>''), Star Dot]"

text \<open>\<open>/^From: *[^<]*<([^@]*)@eclipse(-foundation)?\.org>/mi\<close>\<close>

definition rx_from :: rx where
  "rx_from =
     seqs [Bol, lits ''From:'', Star (Lit CHR '' ''), Star (NotIn ''<''), A (Lit CHR ''<''),
           Grp 1 (Star (NotIn ''@'')), lits ''@eclipse'', Opt (Grp 2 (lits ''-foundation'')),
           lits ''.org>'']"

text \<open>\<open>s.match(r)?.[i]\<close>\<close>

definition match_group :: "bool \<Rightarrow> rx \<Rightarrow> nat \<Rightarrow> nat \<Rightarrow> string \<Rightarrow> string option" where
  "match_group ci r n i s = Option.bind (js_match ci r n s) (\<lambda>a. grp a i)"

definition mailman_label :: "(string \<Rightarrow> bool) \<Rightarrow> message \<Rightarrow> gmail \<Rightarrow> label option result" where
  "mailman_label cre m g =
     (let rawContent = raw m;
          listId = map_option trim (match_group True rx_mailman_list_id 2 1 rawContent);
          root = ''Eclipse Lists''
      in if truthy listId
         then getOrCreateLabelHierarchy cre (root @ ''/'' @ interp listId) ''/'' g
         else
           (let isHubspot = match_group True rx_hubspot 2 1 rawContent;
                isMailChimp = match_group True rx_mailchimp 2 1 rawContent;
                isJenkins = match_group True rx_jenkins 2 1 rawContent;
                isGCal = match_group True rx_gcal 2 1 rawContent
            in if \<not> truthy isHubspot \<and> \<not> truthy isMailChimp \<and> \<not> truthy isJenkins \<and> \<not> truthy isGCal
               then (Inr None,
                     console_warn (''Message not from HubSpot, nor MailChimp, nor Jenkins, not Google Calendar '' @
                       quoted (subject m) @ '' on '' @ date m @ '' from '' @ sender m) g)
               else
                 (let fromName = map_option trim (match_group True rx_from 3 1 rawContent)
                  in if \<not> truthy fromName
                     then (Inr None,
                           console_warn (''Uknown sender of message '' @ quoted (subject m) @
                             '' on '' @ date m) g)
                     else getOrCreateLabelHierarchy cre
                            (root @ ''/HubSpot Lists/'' @ interp fromName) ''/'' g)))"

subsection \<open>GitHubFilter\<close>

text \<open>\<open>/^X-GitHub-Reason: (.*)/mi\<close>\<close>

definition rx_github_reason :: rx where
  "rx_github_reason = seqs [Bol, lits ''X-GitHub-Reason: '', Grp 1 (Star Dot)]"

definition unimportantReasons :: "string list" where
  "unimportantReasons = [''subscribed'', ''team_mention'', ''ci_activity'']"

definition github_isImportantMessage :: "message \<Rightarrow> bool" where
  "github_isImportantMessage m =
     (let ghReason = map_option trim (match_group True rx_github_reason 2 1 (raw m))
      in truthy ghReason \<and> interp ghReason \<notin> set unimportantReasons)"

text \<open>\<open>/^List-ID: ([^<]*) <[^>]*>.*/mi\<close>\<close>

definition rx_github_list_id :: rx where
  "rx_github_list_id =
     seqs [Bol, lits ''List-ID: '', Grp 1 (Star (NotIn ''<'')), lits '' <'',
           Star (NotIn ''>''), A (Lit CHR ''>''), Star Dot]"

text \<open>\<open>'([^/]*)/.*'\<close> and \<open>'[^/]*/(.*)'\<close>, patterns made from strings: no flags.\<close>

definition rx_org :: rx where
  "rx_org = seqs [Grp 1 (Star (NotIn ''/'')), A (Lit CHR ''/''), Star Dot]"

definition rx_repo :: rx where
  "rx_repo = seqs [Star (NotIn ''/''), A (Lit CHR ''/''), Grp 1 (Star Dot)]"

text \<open>
  The lines of \<open>findLabels\<close> after the \<open>List-ID\<close> match: \<open>prefix\<close> is \<open>listId[1]\<close>. The
  result is the label path, or none after the error line.
\<close>

definition github_path :: "string \<Rightarrow> string option" where
  "github_path prefix =
     (let orgMatch = js_match False rx_org 2 prefix;
          repoMatch = js_match False rx_repo 2 prefix
      in case (orgMatch, repoMatch) of
           (Some om, Some rm) \<Rightarrow>
             if length om \<le> 1 \<or> length rm \<le> 1 then None
             else
               (let root = ''GitHub'';
                    org = (if truthy (grp om 1)
                           then underscores_to_spaces (trim (interp (grp om 1)))
                           else ''unknown_org'');
                    repo = (if truthy (grp rm 1)
                            then underscores_to_spaces (trim (interp (grp rm 1)))
                            else ''unknown_repo'')
                in Some (root @ ''/'' @ org @ ''/'' @ repo))
         | _ \<Rightarrow> None)"

text \<open>
  Group 1 of the \<open>List-ID\<close> pattern is not optional, so \<open>listId[1]\<close> is a string in
  every match (\<open>github_list_id_group1\<close> below); the branch for \<open>undefined\<close> is the
  \<open>TypeError\<close> of calling \<open>match\<close> on it.
\<close>

definition github_label :: "(string \<Rightarrow> bool) \<Rightarrow> message \<Rightarrow> gmail \<Rightarrow> label option result" where
  "github_label cre m g =
     (let rawContent = raw m;
          listId = js_match True rx_github_list_id 2 rawContent
      in case listId of
           None \<Rightarrow>
             (Inr None, console_warn (''Cannot find List-ID from message '' @ quoted (subject m) @
                '' on '' @ date m) g)
         | Some a \<Rightarrow>
             if length a \<le> 1
             then (Inr None, console_warn (''Cannot find List-ID from message '' @ quoted (subject m) @
                     '' on '' @ date m) g)
             else
               (case grp a 1 of
                  None \<Rightarrow> (Inl (JsError ''TypeError''), g)
                | Some prefix \<Rightarrow>
                    (case github_path prefix of
                       None \<Rightarrow>
                         (Inr None, console_error (''Something went wrong during matching of '' @
                            quoted prefix) g)
                     | Some path \<Rightarrow> getOrCreateLabelHierarchy cre path ''/'' g)))"

subsection \<open>GitLabFilter\<close>

text \<open>\<open>/^X-GitLab-Project-Path: *(.*)/mi\<close>\<close>

definition rx_gitlab_project_path :: rx where
  "rx_gitlab_project_path =
     seqs [Bol, lits ''X-GitLab-Project-Path:'', Star (Lit CHR '' ''), Grp 1 (Star Dot)]"

definition gitlab_step :: "string \<Rightarrow> string \<Rightarrow> string" where
  "gitlab_step acc pathElement =
     (if length (trim pathElement) > 1 then acc @ ''/'' @ trim pathElement else acc)"

definition gitlab_path :: "string \<Rightarrow> string" where
  "gitlab_path rawContent =
     (let projectPath = map_option (\<lambda>v. split v ''/'')
                          (match_group True rx_gitlab_project_path 2 1 rawContent);
          rootLabel = ''gitlab.eclipse.org''
      in case projectPath of
           Some pathElements \<Rightarrow> foldl gitlab_step rootLabel pathElements
         | None \<Rightarrow> rootLabel)"

definition gitlab_label :: "(string \<Rightarrow> bool) \<Rightarrow> message \<Rightarrow> gmail \<Rightarrow> label option result" where
  "gitlab_label cre m g = getOrCreateLabelHierarchy cre (gitlab_path (raw m)) ''/'' g"

subsection \<open>BugzillaFilter\<close>

text \<open>
  \<open>/^X-Bugzilla-Reason: (=\\?UTF-8\\?Q\\?)?([^?\n]*)(\\?=)?/mi\<close>, and the same for
  \<open>Product\<close> and \<open>Component\<close>. In a regular expression literal the doubled
  backslash is one backslash character, and the \<open>?\<close> after it makes that character
  optional: the pattern has no literal question mark.
\<close>

definition rx_bugzilla_value :: "string \<Rightarrow> rx" where
  "rx_bugzilla_value header =
     seqs [Bol, lits header,
           Opt (Grp 1 (seqs [A (Lit CHR ''=''), Opt (A (Lit bsl)), lits ''UTF-8'',
                             Opt (A (Lit bsl)), A (Lit CHR ''Q''), Opt (A (Lit bsl))])),
           Grp 2 (Star (NotIn [CHR ''?'', nl])),
           Opt (Grp 3 (seqs [Opt (A (Lit bsl)), A (Lit CHR ''='')]))]"

text \<open>
  Group 2 is not optional: it is a string in every match (\<open>bugzilla_value_group2\<close>
  below), so \<open>bzReason[2].trim()\<close> and \<open>match[2].trim()\<close> never meet \<open>undefined\<close>.
\<close>

definition bugzilla_isImportantMessage :: "message \<Rightarrow> bool" where
  "bugzilla_isImportantMessage m =
     (let bzReason = js_match True (rx_bugzilla_value ''X-Bugzilla-Reason: '') 4 (raw m)
      in case bzReason of
           None \<Rightarrow> False
         | Some a \<Rightarrow>
             (case grp a 2 of
                None \<Rightarrow> False
              | Some v \<Rightarrow> length a > 1 \<and> trim v \<noteq> ''None''))"

text \<open>\<open>_getRootLabel\<close>: the keys are tried in the order they are written.\<close>

definition rootLabels :: "(string \<times> string) list" where
  "rootLabels =
     [(''bugs.eclipse.org'', ''Eclipse Bugs''),
      (''polarsys.org'', ''Polarsys Bugs''),
      (''locationtech.org'', ''LocationTech Bugs''),
      (''foundation=2Eeclipse=2Eorg'', ''Foundation Bugs''),
      (''foundation.eclipse.org'', ''Foundation Bugs'')]"

definition getRootLabel :: "string \<Rightarrow> string" where
  "getRootLabel url =
     (case find (\<lambda>key. includes_str url key) (map fst rootLabels) of
        Some key \<Rightarrow> (case map_of rootLabels key of Some v \<Rightarrow> v | None \<Rightarrow> ''Unknown Bugzilla'')
      | None \<Rightarrow> ''Unknown Bugzilla'')"

text \<open>\<open>_processMatch\<close>\<close>

definition processMatch :: "caps option \<Rightarrow> string option" where
  "processMatch match =
     (case match of
        None \<Rightarrow> None
      | Some a \<Rightarrow>
          if length a > 1
          then (case grp a 2 of
                  None \<Rightarrow> None
                | Some v \<Rightarrow>
                    (let result = trim v
                     in if grp a 1 \<noteq> None then Some (underscores_to_spaces result)
                        else Some result))
          else None)"

text \<open>
  \<open>/^X-Bugzilla-URL: (.*)/mi\<close>. Its group 1 is not optional either
  (\<open>bugzilla_url_group1\<close> below): \<open>url[1]\<close> is a string in every match.
\<close>

definition rx_bugzilla_url :: rx where
  "rx_bugzilla_url = seqs [Bol, lits ''X-Bugzilla-URL: '', Grp 1 (Star Dot)]"

definition bugzilla_label :: "(string \<Rightarrow> bool) \<Rightarrow> message \<Rightarrow> gmail \<Rightarrow> label option result" where
  "bugzilla_label cre m g =
     (let rawContent = raw m;
          url = js_match True rx_bugzilla_url 2 rawContent
      in case url of
           None \<Rightarrow>
             (Inl (JsError (''Bugzilla URL match failed for message '' @ quoted (subject m) @
                '' on '' @ date m)), g)
         | Some u \<Rightarrow>
             (let productMatch = js_match True (rx_bugzilla_value ''X-Bugzilla-Product: '') 4 rawContent;
                  componentMatch = js_match True (rx_bugzilla_value ''X-Bugzilla-Component: '') 4 rawContent;
                  root = getRootLabel (interp (grp u 1));
                  product = processMatch productMatch;
                  component = processMatch componentMatch
              in if truthy product \<and> truthy component
                 then getOrCreateLabelHierarchy cre
                        (root @ ''/'' @ interp product @ ''/'' @ interp component) ''/'' g
                 else getOrCreateLabelHierarchy cre root ''/''
                        (console_warn (''Something went wrong during matching of '' @
                           quoted (interp_match productMatch) @ '' and '' @
                           quoted (interp_match componentMatch)) g)))"

subsection \<open>Dispatch\<close>

fun label_of :: "filter \<Rightarrow> (string \<Rightarrow> bool) \<Rightarrow> message \<Rightarrow> gmail \<Rightarrow> label option result" where
  "label_of (MailmanFilter n) = mailman_label"
| "label_of (GitHubFilter n) = github_label"
| "label_of (GitLabFilter n) = gitlab_label"
| "label_of (BugzillaFilter n) = bugzilla_label"

definition findLabels :: "filter \<Rightarrow> (string \<Rightarrow> bool) \<Rightarrow> thread \<Rightarrow> gmail \<Rightarrow> label option list result" where
  "findLabels f cre t g = map_messages (label_of f cre) (messages t) g"

text \<open>\<open>MailmanFilter\<close> and \<open>GitLabFilter\<close> inherit the method of the base class.\<close>

fun isImportantMessage :: "filter \<Rightarrow> message \<Rightarrow> bool" where
  "isImportantMessage (MailmanFilter n) m = False"
| "isImportantMessage (GitHubFilter n) m = github_isImportantMessage m"
| "isImportantMessage (GitLabFilter n) m = False"
| "isImportantMessage (BugzillaFilter n) m = bugzilla_isImportantMessage m"

section \<open>run\<close>

definition thread_ref :: "thread \<Rightarrow> string" where
  "thread_ref t = quoted (firstMessageSubject t) @ '' (id='' @ quoted (tid t) @ '')''"

definition apply_label :: "thread \<Rightarrow> label \<Rightarrow> gmail \<Rightarrow> gmail" where
  "apply_label t l g =
     console_info (''Label '' @ quoted (getName l) @ '' has been added to thread '' @ thread_ref t)
       (addLabel t l g)"

text \<open>
  The callback \<open>run\<close> gives to \<open>map\<close>: one thread. Nothing in it catches an exception.
\<close>

definition process_thread :: "filter \<Rightarrow> (string \<Rightarrow> bool) \<Rightarrow> thread \<Rightarrow> gmail \<Rightarrow> unit result" where
  "process_thread f cre t g =
     (case findLabels f cre t g of
        (Inl e, g1) \<Rightarrow> (Inl e, g1)
      | (Inr found, g1) \<Rightarrow>
          (let labels = uniqLabels found
           in if length labels = 0
              then (Inr (), console_error (''No labels found for thread '' @ thread_ref t) g1)
              else
                (let g2 = fold (apply_label t) labels g1
                 in if list_ex (isImportantMessage f) (messages t)
                    then (Inr (), moveToInbox t (markImportant t
                            (console_info (''Important thread '' @ thread_ref t) g2)))
                    else (Inr (), moveToArchive t (markUnimportant t g2)))))"

text \<open>\<open>threads.map(thread => ...)\<close>: an exception in the callback ends the \<open>map\<close>.\<close>

fun run_threads :: "filter \<Rightarrow> (string \<Rightarrow> bool) \<Rightarrow> thread list \<Rightarrow> gmail \<Rightarrow> unit result" where
  "run_threads f cre [] g = (Inr (), g)"
| "run_threads f cre (t # ts) g =
     (case process_thread f cre t g of
        (Inl e, g') \<Rightarrow> (Inl e, g')
      | (Inr u, g') \<Rightarrow> run_threads f cre ts g')"

text \<open>
  \<open>GmailApp.search\<close> belongs to the mail service: \<open>gsearch\<close> is its answer to a query, a
  start index and a maximum.
\<close>

definition run :: "filter \<Rightarrow> (string \<Rightarrow> bool) \<Rightarrow> (string \<Rightarrow> nat \<Rightarrow> nat \<Rightarrow> thread list) \<Rightarrow> gmail \<Rightarrow> unit result" where
  "run f cre gsearch g = run_threads f cre (gsearch (searchQuery f) 0 (searchMax f)) g"

section \<open>main\<close>

text \<open>The four filters run one after the other; an exception out of one ends \<open>main\<close>.\<close>

definition main :: "(string \<Rightarrow> bool) \<Rightarrow> (string \<Rightarrow> nat \<Rightarrow> nat \<Rightarrow> thread list) \<Rightarrow> gmail \<Rightarrow> unit result" where
  "main cre gsearch g =
     (case run (GitHubFilter 16) cre gsearch g of
        (Inl e, g1) \<Rightarrow> (Inl e, g1)
      | (Inr u1, g1) \<Rightarrow>
          (case run (GitLabFilter 16) cre gsearch g1 of
             (Inl e, g2) \<Rightarrow> (Inl e, g2)
           | (Inr u2, g2) \<Rightarrow>
               (case run (BugzillaFilter 16) cre gsearch g2 of
                  (Inl e, g3) \<Rightarrow> (Inl e, g3)
                | (Inr u3, g3) \<Rightarrow> run (MailmanFilter 16) cre gsearch g3)))"

section \<open>Notions used in the proofs\<close>

text \<open>The last character of \<open>u\<close>, or \<open>p\<close> when \<open>u\<close> is empty: the character before the
  position reached after reading \<open>u\<close>.\<close>

definition prev_after :: "char option \<Rightarrow> string \<Rightarrow> char option" where
  "prev_after p u = (if u = [] then p else Some (last u))"

text \<open>What \<open>.*\<close> takes of a text: everything up to the first line terminator.\<close>

definition line_head :: "string \<Rightarrow> string" where
  "line_head s = takeWhile (\<lambda>c. \<not> is_line_terminator c) s"

text \<open>The groups that take part in every match of a pattern.\<close>

fun defs :: "rx \<Rightarrow> nat set" where
  "defs (Grp n r) = insert n (defs r)"
| "defs (Seq r1 r2) = defs r1 \<union> defs r2"
| "defs r = {}"

fun fdefs :: "frame \<Rightarrow> nat set" where
  "fdefs (Match r) = defs r"
| "fdefs (Close n s0) = {n}"

text \<open>\<open>c'\<close> has every capture of \<open>c\<close> and those of the groups in \<open>D\<close>.\<close>

definition extends :: "nat set \<Rightarrow> caps \<Rightarrow> caps \<Rightarrow> bool" where
  "extends D c c' =
     (length c' = length c \<and> (\<forall>i < length c. c ! i \<noteq> None \<or> i \<in> D \<longrightarrow> c' ! i \<noteq> None))"

text \<open>The elements \<open>_uniqLabels\<close> keeps, with their indices.\<close>

definition kept :: "label option list \<Rightarrow> (label option \<times> nat) list" where
  "kept ls = filter (\<lambda>ci. uniq_keep ls ci \<noteq> None) (zip ls [0 ..< length ls])"

section \<open>Example inputs\<close>

text \<open>A store that accepts every label name, and one that holds nothing yet.\<close>

definition accept_all :: "string \<Rightarrow> bool" where
  "accept_all n = True"

definition empty_store :: gmail where
  "empty_store = \<lparr>user_labels = [], calls = [], console = []\<rparr>"

definition mk_message :: "string \<Rightarrow> message" where
  "mk_message r = \<lparr>raw = r, subject = ''subject'', date = ''date'', sender = ''sender''\<rparr>"

definition mk_thread :: "string \<Rightarrow> message list \<Rightarrow> thread" where
  "mk_thread i ms = \<lparr>tid = i, firstMessageSubject = ''subject'', messages = ms\<rparr>"

text \<open>A Bugzilla thread whose message has no \<open>X-Bugzilla-URL\<close> header, and one that has.\<close>

definition bad_thread :: thread where
  "bad_thread = mk_thread ''t1'' [mk_message ''X-Bugzilla-Product: Platform'']"

definition good_thread :: thread where
  "good_thread = mk_thread ''t2''
     [mk_message (''X-Bugzilla-URL: https://bugs.eclipse.org/'' @ [nl] @
                  ''X-Bugzilla-Product: Platform'' @ [nl] @
                  ''X-Bugzilla-Component: UI'')]"

definition search_two :: "string \<Rightarrow> nat \<Rightarrow> nat \<Rightarrow> thread list" where
  "search_two q start mx = [bad_thread, good_thread]"

definition search_good :: "string \<Rightarrow> nat \<Rightarrow> nat \<Rightarrow> thread list" where
  "search_good q start mx = [good_thread]"

text \<open>
  A GitHub thread of two messages with the same \<open>List-ID\<close>, the second one with a reason
  that counts; a GitHub thread whose only message has a reason that counts and no
  \<open>List-ID\<close>; and the store once the labels of \<open>org/repo\<close> exist.
\<close>

definition github_thread :: thread where
  "github_thread = mk_thread ''t3''
     [mk_message (''List-ID: org/repo <repo.org.github.com>'' @ [nl] @ ''X-GitHub-Reason: subscribed''),
      mk_message (''List-ID: org/repo <repo.org.github.com>'' @ [nl] @ ''X-GitHub-Reason: mention'')]"

definition unlabelled_thread :: thread where
  "unlabelled_thread = mk_thread ''t4'' [mk_message ''X-GitHub-Reason: mention'']"

definition github_store :: gmail where
  "github_store =
     \<lparr>user_labels = [''GitHub'', ''GitHub/org'', ''GitHub/org/repo''], calls = [], console = []\<rparr>"

section \<open>The matcher\<close>

lemma star_greedy:
  "mt ci k (prev_after p (takeWhile (amatch ci a) s)) (dropWhile (amatch ci a) s) c = Some res \<Longrightarrow>
   mt ci (Match (Star a) # k) p s c = Some res"
proof (induction s arbitrary: p)
  case Nil
  then show ?case by (simp add: prev_after_def)
next
  case (Cons x xs)
  show ?case
  proof (cases "amatch ci a x")
    case True
    have "prev_after (Some x) (takeWhile (amatch ci a) xs) = prev_after p (takeWhile (amatch ci a) (x # xs))"
      using True by (simp add: prev_after_def)
    with Cons.prems True
    have "mt ci k (prev_after (Some x) (takeWhile (amatch ci a) xs)) (dropWhile (amatch ci a) xs) c = Some res"
      by simp
    then have "mt ci (Match (Star a) # k) (Some x) xs c = Some res" by (rule Cons.IH)
    with True show ?thesis by simp
  next
    case False
    with Cons.prems show ?thesis by (simp add: prev_after_def)
  qed
qed

lemma search_from_first:
  "mt ci [Match (Grp 0 r)] p s (replicate n None) = Some a \<Longrightarrow> search_from ci r n p s = Some a"
  by (cases s) auto

lemma amatch_not_slash: "amatch False (NotIn ''/'') = (\<lambda>x. x \<noteq> CHR ''/'')"
  by (rule ext) (simp add: canon_def)

lemma amatch_dot: "amatch ci Dot = (\<lambda>c. \<not> is_line_terminator c)"
  by (rule ext) simp

lemma tw_org: "CHR ''/'' \<notin> set org \<Longrightarrow> takeWhile (\<lambda>x. x \<noteq> CHR ''/'') (org @ CHR ''/'' # repo) = org"
  by (induction org) auto

lemma dw_org: "CHR ''/'' \<notin> set org \<Longrightarrow> dropWhile (\<lambda>x. x \<noteq> CHR ''/'') (org @ CHR ''/'' # repo) = CHR ''/'' # repo"
  by (induction org) auto

lemma len_tw_dw: "length s - length (dropWhile P s) = length (takeWhile P s)"
proof -
  have "length (takeWhile P s) + length (dropWhile P s) = length s"
    by (metis length_append takeWhile_dropWhile_id)
  then show ?thesis by simp
qed

lemma take_tw: "take (length (takeWhile P s)) s = takeWhile P s"
  by (metis append_eq_conv_conj takeWhile_dropWhile_id)

lemma consumed_dropWhile: "consumed (u @ v) (dropWhile P v) = u @ takeWhile P v"
proof -
  have "length (u @ v) - length (dropWhile P v) = length u + length (takeWhile P v)"
    using len_tw_dw [of v P] length_dropWhile_le [of P v] by simp
  then show ?thesis
    by (simp add: consumed_def take_tw)
qed

lemma consumed_dropWhile0: "consumed v (dropWhile P v) = takeWhile P v"
  using consumed_dropWhile [of "[]" v P] by simp

lemma consumed_dropWhile1: "consumed (u @ x # v) (dropWhile P v) = u @ x # takeWhile P v"
  using consumed_dropWhile [of "u @ [x]" v P] by simp

lemma consumed_suffix: "consumed (u @ v) v = u"
  by (simp add: consumed_def)

lemma org_match:
  assumes "CHR ''/'' \<notin> set org"
  shows "js_match False rx_org 2 (org @ CHR ''/'' # repo) =
           Some [Some (org @ CHR ''/'' # line_head repo), Some org]"
  unfolding js_match_def rx_org_def
  apply (rule search_from_first)
  apply simp
  apply (rule star_greedy)
  apply (simp add: tw_org dw_org assms amatch_not_slash canon_def)
  apply (rule star_greedy)
  apply (simp add: line_head_def numeral_2_eq_2 amatch_dot consumed_dropWhile1 consumed_suffix del: amatch.simps)
  done

lemma repo_match:
  assumes "CHR ''/'' \<notin> set org"
  shows "js_match False rx_repo 2 (org @ CHR ''/'' # repo) =
           Some [Some (org @ CHR ''/'' # line_head repo), Some (line_head repo)]"
  unfolding js_match_def rx_repo_def
  apply (rule search_from_first)
  apply simp
  apply (rule star_greedy)
  apply (simp add: tw_org dw_org assms amatch_not_slash canon_def)
  apply (rule star_greedy)
  apply (simp add: line_head_def numeral_2_eq_2 amatch_dot consumed_dropWhile1 consumed_dropWhile0 del: amatch.simps)
  done

lemma extends_refl: "extends {} c c"
  by (simp add: extends_def)

lemma extends_weaken: "extends E c c' \<Longrightarrow> D \<subseteq> E \<Longrightarrow> extends D c c'"
  by (auto simp: extends_def)

lemma extends_after_update:
  assumes "extends D (c[n := Some v]) res"
  shows "extends (insert n D) c res"
proof -
  have "res ! i \<noteq> None" if "i < length c" and "c ! i \<noteq> None \<or> i \<in> insert n D" for i
  proof (cases "i = n")
    case True
    with that assms show ?thesis by (simp add: extends_def)
  next
    case False
    with that assms show ?thesis by (auto simp: extends_def)
  qed
  with assms show ?thesis by (simp add: extends_def)
qed

lemma mt_sound:
  "mt ci k p s c = Some res \<Longrightarrow> extends (\<Union> (set (map fdefs k))) c res"
proof (induction ci k p s c rule: mt.induct)
  case (1 ci p s c)
  then show ?case using extends_refl by simp
next
  case (2 ci n s0 k p s c)
  then have "extends (\<Union> (set (map fdefs k))) (c[n := Some (consumed s0 s)]) res" by simp
  from extends_after_update [OF this] show ?case by simp
next
  case (3 ci k p s c)
  then show ?case by simp
next
  case (4 ci a k p c)
  then show ?case by simp
next
  case (5 ci a k p x xs c)
  then show ?case by (simp split: if_splits)
next
  case (6 ci a k p c)
  then show ?case by simp
next
  case (7 ci a k p x xs c)
  then show ?case by (auto split: if_splits option.splits)
next
  case (8 ci k p s c)
  then show ?case by (simp split: if_splits)
next
  case (9 ci r1 r2 k p s c)
  then show ?case by (simp add: Un_assoc)
next
  case (10 ci r k p s c)
  show ?case
  proof (cases "mt ci (Match r # k) p s c")
    case None
    with 10 show ?thesis by simp
  next
    case (Some b)
    with 10 have "extends (\<Union> (set (map fdefs (Match r # k)))) c res" by simp
    then show ?thesis by (rule extends_weaken) auto
  qed
next
  case (11 ci n r k p s c)
  then show ?case by simp
qed

lemma search_from_sound:
  "search_from ci r n p s = Some a \<Longrightarrow> extends (insert 0 (defs r)) (replicate n None) a"
proof (induction s arbitrary: p)
  case Nil
  then have "mt ci [Match (Grp 0 r)] p [] (replicate n None) = Some a" by simp
  from mt_sound [OF this] show ?case by simp
next
  case (Cons x xs)
  show ?case
  proof (cases "mt ci [Match (Grp 0 r)] p (x # xs) (replicate n None)")
    case None
    with Cons.prems have "search_from ci r n (Some x) xs = Some a" by simp
    then show ?thesis by (rule Cons.IH)
  next
    case (Some b)
    with Cons.prems have "mt ci [Match (Grp 0 r)] p (x # xs) (replicate n None) = Some a"
      by simp
    from mt_sound [OF this] show ?thesis by simp
  qed
qed

lemma js_match_length: "js_match ci r n s = Some a \<Longrightarrow> length a = n"
  using search_from_sound [of ci r n None s a] by (simp add: js_match_def extends_def)

lemma js_match_defined:
  "js_match ci r n s = Some a \<Longrightarrow> i \<in> defs r \<Longrightarrow> i < n \<Longrightarrow> \<exists>v. grp a i = Some v"
  using search_from_sound [of ci r n None s a] by (auto simp: js_match_def extends_def grp_def)

lemma github_list_id_group1:
  assumes "js_match True rx_github_list_id 2 s = Some a"
  shows "\<exists>prefix. grp a 1 = Some prefix"
proof -
  have "1 \<in> defs rx_github_list_id" by (simp add: rx_github_list_id_def)
  from js_match_defined [OF assms this] show ?thesis by simp
qed

lemma bugzilla_value_group2:
  assumes "js_match True (rx_bugzilla_value header) 4 s = Some a"
  shows "\<exists>v. grp a 2 = Some v"
proof -
  have "2 \<in> defs (rx_bugzilla_value header)" by (simp add: rx_bugzilla_value_def)
  from js_match_defined [OF assms this] show ?thesis by simp
qed

lemma bugzilla_url_group1:
  assumes "js_match True rx_bugzilla_url 2 s = Some a"
  shows "\<exists>v. grp a 1 = Some v"
proof -
  have "1 \<in> defs rx_bugzilla_url" by (simp add: rx_bugzilla_url_def)
  from js_match_defined [OF assms this] show ?thesis by simp
qed

lemma github_path_slash:
  assumes "CHR ''/'' \<notin> set org"
  shows "github_path (org @ CHR ''/'' # repo) =
     Some (''GitHub/'' @
           (if org = [] then ''unknown_org'' else underscores_to_spaces (trim org)) @ ''/'' @
           (if line_head repo = [] then ''unknown_repo''
            else underscores_to_spaces (trim (line_head repo))))"
  by (simp add: github_path_def org_match [OF assms] repo_match [OF assms] grp_def truthy_def interp_def)

section \<open>Labels and the store\<close>

lemma split_go_nonempty: "split_go sep acc s \<noteq> []"
  by (induction sep acc s rule: split_go.induct) auto

lemma split_slash_nonempty: "split s ''/'' \<noteq> []"
  by (simp add: split_def split_go_nonempty)

lemma getOrCreateLabel_existing:
  "parens_to_underscores n \<in> set (user_labels g) \<Longrightarrow>
   getOrCreateLabel cre n g = (Inr (Label (parens_to_underscores n)), g)"
  by (simp add: getOrCreateLabel_def getUserLabelByName_def)

lemma getOrCreateLabel_ok:
  assumes "getOrCreateLabel cre n g = (Inr l, g')"
  shows "l = Label (parens_to_underscores n)"
    and "parens_to_underscores n \<in> set (user_labels g')"
    and "set (user_labels g) \<subseteq> set (user_labels g')"
  using assms
  by (auto simp: getOrCreateLabel_def getUserLabelByName_def createLabel_def Let_def
      split: if_splits)

lemma reduce_labels_again:
  assumes "reduce_labels cre cur ls g = (Inr r, g')"
  shows "set (user_labels g) \<subseteq> set (user_labels g') \<and>
         (\<forall>h. set (user_labels g') \<subseteq> set (user_labels h) \<longrightarrow> reduce_labels cre cur ls h = (Inr r, h))"
  using assms
proof (induction ls arbitrary: cur g)
  case Nil
  then show ?case by simp
next
  case (Cons l ls)
  define n where "n = (case cur of Some c \<Rightarrow> getName c @ ''/'' @ l | None \<Rightarrow> l)"
  have step: "(case cur of Some c \<Rightarrow> getOrCreateLabel cre (getName c @ ''/'' @ l) g
               | None \<Rightarrow> getOrCreateLabel cre l g) = getOrCreateLabel cre n g" for g
    by (simp add: n_def split: option.splits)
  from Cons.prems obtain lab g1 where
    first: "getOrCreateLabel cre n g = (Inr lab, g1)" and
    rest: "reduce_labels cre (Some lab) ls g1 = (Inr r, g')"
    by (auto simp: step split: prod.splits sum.splits)
  note ok = getOrCreateLabel_ok [OF first]
  from Cons.IH [OF rest] have
    mono: "set (user_labels g1) \<subseteq> set (user_labels g')" and
    again: "\<And>h. set (user_labels g') \<subseteq> set (user_labels h) \<Longrightarrow>
                reduce_labels cre (Some lab) ls h = (Inr r, h)"
    by blast+
  have "reduce_labels cre cur (l # ls) h = (Inr r, h)"
    if h: "set (user_labels g') \<subseteq> set (user_labels h)" for h
  proof -
    from ok(2) mono h have "parens_to_underscores n \<in> set (user_labels h)" by blast
    then have "getOrCreateLabel cre n h = (Inr lab, h)"
      using ok(1) by (simp add: getOrCreateLabel_existing)
    with again [OF h] show ?thesis by (simp add: step)
  qed
  with ok(3) mono show ?case by blast
qed

lemma hierarchy_idem:
  assumes "getOrCreateLabelHierarchy cre labelName separator g = (Inr l, g')"
  shows "getOrCreateLabelHierarchy cre labelName separator g' = (Inr l, g')"
  using reduce_labels_again [of cre None "split labelName separator" g l g'] assms
  by (simp add: getOrCreateLabelHierarchy_def)

lemma reduce_labels_some:
  "reduce_labels cre cur ls g = (Inr r, g') \<Longrightarrow> cur \<noteq> None \<or> ls \<noteq> [] \<Longrightarrow> r \<noteq> None"
proof (induction ls arbitrary: cur g)
  case Nil
  then show ?case by simp
next
  case (Cons l ls)
  then show ?case by (fastforce split: prod.splits sum.splits)
qed

lemma hierarchy_not_null: "fst (getOrCreateLabelHierarchy cre path ''/'' g) \<noteq> Inr None"
proof
  assume "fst (getOrCreateLabelHierarchy cre path ''/'' g) = Inr None"
  then obtain g' where "reduce_labels cre None (split path ''/'') g = (Inr None, g')"
    by (cases "getOrCreateLabelHierarchy cre path ''/'' g") (simp add: getOrCreateLabelHierarchy_def)
  from reduce_labels_some [OF this] split_slash_nonempty show False by simp
qed

lemma getOrCreateLabel_calls: "calls (snd (getOrCreateLabel cre n g)) = calls g"
  by (simp add: getOrCreateLabel_def getUserLabelByName_def createLabel_def console_error_def Let_def)

lemma reduce_labels_calls: "calls (snd (reduce_labels cre cur ls g)) = calls g"
proof (induction ls arbitrary: cur g)
  case Nil
  then show ?case by simp
next
  case (Cons l ls)
  show ?case
  proof (cases cur)
    case None
    with Cons.IH getOrCreateLabel_calls [of cre l g] show ?thesis
      by (cases "getOrCreateLabel cre l g") (auto split: sum.splits)
  next
    case (Some c)
    with Cons.IH getOrCreateLabel_calls [of cre "getName c @ ''/'' @ l" g] show ?thesis
      by (cases "getOrCreateLabel cre (getName c @ ''/'' @ l) g") (auto split: sum.splits)
  qed
qed

lemma hierarchy_calls: "calls (snd (getOrCreateLabelHierarchy cre path sep g)) = calls g"
  by (simp add: getOrCreateLabelHierarchy_def reduce_labels_calls)

lemma mailman_label_calls: "calls (snd (mailman_label cre m g)) = calls g"
  by (simp add: mailman_label_def Let_def hierarchy_calls console_warn_def)

lemma github_label_calls: "calls (snd (github_label cre m g)) = calls g"
  by (simp add: github_label_def Let_def hierarchy_calls console_warn_def console_error_def
      split: option.splits)

lemma gitlab_label_calls: "calls (snd (gitlab_label cre m g)) = calls g"
  by (simp add: gitlab_label_def hierarchy_calls)

lemma bugzilla_label_calls: "calls (snd (bugzilla_label cre m g)) = calls g"
  by (simp add: bugzilla_label_def Let_def hierarchy_calls console_warn_def split: option.splits)

lemma label_of_calls: "calls (snd (label_of f cre m g)) = calls g"
  by (cases f)
    (simp_all add: mailman_label_calls github_label_calls gitlab_label_calls bugzilla_label_calls)

lemma map_messages_calls:
  "(\<And>m g. calls (snd (f m g)) = calls g) \<Longrightarrow> calls (snd (map_messages f ms g)) = calls g"
proof (induction ms arbitrary: g)
  case Nil
  then show ?case by simp
next
  case (Cons m ms)
  obtain r g1 where first: "f m g = (r, g1)" by (cases "f m g")
  with Cons.prems [of m g] have c1: "calls g1 = calls g" by simp
  obtain rs g2 where rest: "map_messages f ms g1 = (rs, g2)" by (cases "map_messages f ms g1")
  with Cons.IH [OF Cons.prems, of g1] have c2: "calls g2 = calls g1" by simp
  from first rest c1 c2 show ?case by (simp split: sum.splits)
qed

lemma findLabels_calls: "calls (snd (findLabels f cre t g)) = calls g"
  unfolding findLabels_def by (rule map_messages_calls) (rule label_of_calls)

section \<open>Deduplication\<close>

lemma findIndex_ge: "- 1 \<le> findIndex P xs"
  by (induction xs) (auto simp: Let_def)

lemma findIndex_nat:
  "findIndex P xs = int i \<Longrightarrow> i < length xs \<and> P (xs ! i)"
proof (induction xs arbitrary: i)
  case Nil
  then show ?case by simp
next
  case (Cons x xs)
  show ?case
  proof (cases "P x")
    case True
    with Cons.prems show ?thesis by simp
  next
    case False
    with Cons.prems have neg: "\<not> findIndex P xs < 0" and eq: "findIndex P xs + 1 = int i"
      by (auto simp: Let_def split: if_splits)
    then obtain j where j: "i = Suc j" using findIndex_ge [of P xs] by (cases i) auto
    with eq have "findIndex P xs = int j" by simp
    from Cons.IH [OF this] j show ?thesis by simp
  qed
qed

lemma findIndex_found:
  "x \<in> set xs \<Longrightarrow> P x \<Longrightarrow> \<exists>i. findIndex P xs = int i"
proof (induction xs)
  case Nil
  then show ?case by simp
next
  case (Cons y ys)
  show ?case
  proof (cases "P y")
    case True
    then show ?thesis by simp
  next
    case False
    with Cons obtain i where "findIndex P ys = int i" by auto
    with False have "findIndex P (y # ys) = int (Suc i)" by (simp add: Let_def)
    then show ?thesis by blast
  qed
qed

lemma uniqLabels_kept: "uniqLabels ls = map (the \<circ> uniq_keep ls) (kept ls)"
  by (simp add: uniqLabels_def kept_def map_filter_def)

lemma in_zip_index: "(x, i) \<in> set (zip ls [0 ..< length ls]) \<longleftrightarrow> i < length ls \<and> x = ls ! i"
  by (auto simp: set_zip)

lemma kept_iff:
  "(x, i) \<in> set (kept ls) \<longleftrightarrow>
     i < length ls \<and> x = ls ! i \<and> (\<exists>l. x = Some l \<and> findIndex (same_name l) ls = int i)"
  by (auto simp: kept_def in_zip_index uniq_keep_def split: option.splits)

lemma kept_value:
  "(x, i) \<in> set (kept ls) \<Longrightarrow> x = Some ((the \<circ> uniq_keep ls) (x, i))"
  by (auto simp: kept_iff uniq_keep_def)

lemma same_name_cong: "getName l = getName l' \<Longrightarrow> same_name l = same_name l'"
  by (rule ext) (simp add: same_name_def split: option.splits)

lemma distinct_kept: "distinct (kept ls)"
  unfolding kept_def by (rule distinct_filter) (simp add: distinct_zipI2)

lemma uniqLabels_distinct: "distinct (map getName (uniqLabels ls))"
proof -
  have "inj_on (getName \<circ> (the \<circ> uniq_keep ls)) (set (kept ls))"
  proof (rule inj_onI)
    fix a b
    assume a: "a \<in> set (kept ls)" and b: "b \<in> set (kept ls)"
      and eq: "(getName \<circ> (the \<circ> uniq_keep ls)) a = (getName \<circ> (the \<circ> uniq_keep ls)) b"
    obtain x i where ai: "a = (x, i)" by (cases a)
    obtain y j where bj: "b = (y, j)" by (cases b)
    from a ai obtain l where l: "x = Some l" "findIndex (same_name l) ls = int i" "x = ls ! i"
      by (auto simp: kept_iff)
    from b bj obtain l' where l': "y = Some l'" "findIndex (same_name l') ls = int j" "y = ls ! j"
      by (auto simp: kept_iff)
    from eq ai bj l(1) l'(1) a b have "getName l = getName l'"
      using kept_value [of x i ls] kept_value [of y j ls] by simp
    then have "same_name l = same_name l'" by (rule same_name_cong)
    with l(2) l'(2) have "i = j" by simp
    with l(3) l'(3) ai bj show "a = b" by simp
  qed
  with distinct_kept [of ls] have "distinct (map (getName \<circ> (the \<circ> uniq_keep ls)) (kept ls))"
    by (simp add: distinct_map)
  then show ?thesis by (simp add: uniqLabels_kept)
qed

lemma uniqLabels_complete:
  assumes "Some l \<in> set ls"
  shows "getName l \<in> set (map getName (uniqLabels ls))"
proof -
  have "same_name l (Some l)" by (simp add: same_name_def)
  from findIndex_found [of "Some l" ls "same_name l", OF assms this] obtain i where i: "findIndex (same_name l) ls = int i" by blast
  from findIndex_nat [OF this] have len: "i < length ls" and sn: "same_name l (ls ! i)" by simp_all
  from sn obtain l' where l': "ls ! i = Some l'" "getName l' = getName l"
    by (auto simp: same_name_def split: option.splits)
  from same_name_cong [OF l'(2)] i have "findIndex (same_name l') ls = int i" by simp
  with len l'(1) have k: "(Some l', i) \<in> set (kept ls)" by (simp add: kept_iff)
  have "(the \<circ> uniq_keep ls) (Some l', i) = l'" using kept_value [OF k] by simp
  with k have "l' \<in> set (uniqLabels ls)" by (force simp: uniqLabels_kept)
  then have "getName l' \<in> getName ` set (uniqLabels ls)" by (rule imageI)
  with l'(2) show ?thesis by simp
qed

lemma uniqLabels_sound:
  assumes "l \<in> set (uniqLabels ls)"
  shows "Some l \<in> set ls"
proof -
  from assms obtain x i where k: "(x, i) \<in> set (kept ls)" and l: "l = (the \<circ> uniq_keep ls) (x, i)"
    by (auto simp: uniqLabels_kept)
  from kept_value [OF k] l have "x = Some l" by simp
  with k show ?thesis by (auto simp: kept_iff)
qed

lemma uniqLabels_empty_iff: "uniqLabels ls = [] \<longleftrightarrow> (\<forall>x \<in> set ls. x = None)"
proof
  assume e: "uniqLabels ls = []"
  show "\<forall>x \<in> set ls. x = None"
  proof
    fix x assume x: "x \<in> set ls"
    show "x = None"
    proof (cases x)
      case None
      then show ?thesis .
    next
      case (Some l)
      with x uniqLabels_complete [of l ls] e show ?thesis by simp
    qed
  qed
next
  assume a: "\<forall>x \<in> set ls. x = None"
  show "uniqLabels ls = []"
  proof (cases "uniqLabels ls")
    case Nil
    then show ?thesis .
  next
    case (Cons l rest)
    then have "l \<in> set (uniqLabels ls)" by simp
    from uniqLabels_sound [OF this] a show ?thesis by auto
  qed
qed

lemma distinct_count_list: "distinct xs \<Longrightarrow> x \<in> set xs \<Longrightarrow> count_list xs x = 1"
  by (induction xs) (auto simp: count_list_0_iff)

lemma fold_apply_label_calls:
  "calls (fold (apply_label t) ls g) = calls g @ map (\<lambda>l. AddLabel (tid t) (getName l)) ls"
  by (induction ls arbitrary: g) (simp_all add: apply_label_def addLabel_def console_info_def)

section \<open>Threads\<close>

lemma github_label_slash:
  assumes "js_match True rx_github_list_id 2 (raw m) = Some a"
    and "grp a 1 = Some (org @ CHR ''/'' # repo)"
    and "CHR ''/'' \<notin> set org"
  shows "github_label cre m g =
           getOrCreateLabelHierarchy cre
             (''GitHub/'' @
              (if org = [] then ''unknown_org'' else underscores_to_spaces (trim org)) @ ''/'' @
              (if line_head repo = [] then ''unknown_repo''
               else underscores_to_spaces (trim (line_head repo)))) ''/'' g"
proof -
  from js_match_length [OF assms(1)] have "length a = 2" .
  with assms(1,2) github_path_slash [OF assms(3), of repo] show ?thesis
    by (simp add: github_label_def)
qed

lemma count_list_map_inj: "inj f \<Longrightarrow> count_list (map f xs) (f x) = count_list xs x"
  by (induction xs) (auto dest: injD)

lemma count_list_notin: "x \<notin> set xs \<Longrightarrow> count_list xs x = 0"
  by (simp add: count_list_0_iff)

lemma process_thread_new_calls:
  assumes "findLabels f cre t g = (Inr found, gm)"
  shows "\<exists>tail. drop (length (calls g)) (calls (snd (process_thread f cre t g))) =
           map (\<lambda>l. AddLabel (tid t) (getName l)) (uniqLabels found) @ tail \<and>
           set tail \<subseteq> {MarkImportant (tid t), MoveToInbox (tid t),
                         MarkUnimportant (tid t), MoveToArchive (tid t)}"
proof -
  from findLabels_calls [of f cre t g] assms have "calls gm = calls g" by simp
  with assms show ?thesis
    by (simp add: process_thread_def Let_def fold_apply_label_calls list_ex_iff
        console_info_def console_error_def markImportant_def markUnimportant_def
        moveToInbox_def moveToArchive_def)
qed

section \<open>The claims\<close>

subsection \<open>C1: an exception in one thread and the rest of the batch\<close>

text \<open>
  C1, as amended. \<open>run\<close> has no handler: when the callback throws for a thread \<open>t\<close> of the
  batch (as \<open>BugzillaFilter.findLabels\<close> does for a message without \<open>X-Bugzilla-URL\<close>),
  after the threads before it were processed, the exception leaves \<open>run\<close>. The store is
  as it was when the exception was thrown, so the threads after \<open>t\<close> are not processed.
\<close>

theorem run_stops_at_first_error:
  assumes "gsearch (searchQuery f) 0 (searchMax f) = before @ t # rest"
    and "run_threads f cre before g = (Inr (), gm)"
    and "process_thread f cre t gm = (Inl e, ge)"
  shows "run f cre gsearch g = (Inl e, ge)"
proof -
  have "run_threads f cre (before @ t # rest) g = (Inl e, ge)"
    using assms(2)
  proof (induction before arbitrary: g)
    case Nil
    with assms(3) show ?case by simp
  next
    case (Cons a before)
    then show ?case by (auto split: prod.splits sum.splits)
  qed
  with assms(1) show ?thesis by (simp add: run_def)
qed

theorem run_stops_at_first_error_witness:
  "search_two (searchQuery (BugzillaFilter 16)) 0 (searchMax (BugzillaFilter 16)) =
     [] @ bad_thread # [good_thread] \<and>
   run_threads (BugzillaFilter 16) accept_all [] empty_store = (Inr (), empty_store) \<and>
   process_thread (BugzillaFilter 16) accept_all bad_thread empty_store =
     (Inl (JsError (''Bugzilla URL match failed for message '' @ quoted ''subject'' @ '' on date'')),
      empty_store) \<and>
   run (BugzillaFilter 16) accept_all search_two empty_store =
     (Inl (JsError (''Bugzilla URL match failed for message '' @ quoted ''subject'' @ '' on date'')),
      empty_store)"
proof -
  have h1: "search_two (searchQuery (BugzillaFilter 16)) 0 (searchMax (BugzillaFilter 16)) =
     [] @ bad_thread # [good_thread]"
    by (simp add: search_two_def)
  have h2: "run_threads (BugzillaFilter 16) accept_all [] empty_store = (Inr (), empty_store)"
    by simp
  have h3: "process_thread (BugzillaFilter 16) accept_all bad_thread empty_store =
     (Inl (JsError (''Bugzilla URL match failed for message '' @ quoted ''subject'' @ '' on date'')),
      empty_store)"
    by code_simp
  from run_stops_at_first_error
         [where gsearch = search_two and f = "BugzillaFilter 16" and before = "[]"
            and t = bad_thread and rest = "[good_thread]", OF h1 h2 h3] h1 h2 h3
  show ?thesis by blast
qed

text \<open>
  C1 as stated fails. The search returns a thread without \<open>X-Bugzilla-URL\<close> and then a
  complete one: \<open>run\<close> ends with the exception and has made no call on the second
  thread, which it labels and archives when the search returns it alone.
\<close>

theorem error_not_caught_counterexample:
  "fst (run (BugzillaFilter 16) accept_all search_two empty_store) =
     Inl (JsError (''Bugzilla URL match failed for message '' @ quoted ''subject'' @ '' on date'')) \<and>
   calls (snd (run (BugzillaFilter 16) accept_all search_two empty_store)) = [] \<and>
   calls (snd (run (BugzillaFilter 16) accept_all search_good empty_store)) =
     [AddLabel ''t2'' ''Eclipse Bugs/Platform/UI'', MarkUnimportant ''t2'', MoveToArchive ''t2'']"
  by code_simp

subsection \<open>C2: the GitHub scenario\<close>

text \<open>
  C2, as amended. The pattern of \<open>GitHubFilter.findLabels\<close> reads the pair \<open>org/repo\<close> in
  the text before the angle bracket, where GitHub writes it. For a message whose
  \<open>List-ID\<close> header is \<open>List-ID: my_org/my_repo <my_repo.my_org.github.com>\<close>, so that the
  pattern matches with \<open>my_org/my_repo\<close> before the bracket, the label resolved is
  \<open>GitHub/my org/my repo\<close>, whatever the store and the rest of the message.
\<close>

theorem github_scenario:
  assumes "js_match True rx_github_list_id 2 (raw m) = Some a"
    and "grp a 1 = Some ''my_org/my_repo''"
  shows "github_label cre m g =
           getOrCreateLabelHierarchy cre ''GitHub/my org/my repo'' ''/'' g"
proof -
  have h2: "grp a 1 = Some (''my_org'' @ CHR ''/'' # ''my_repo'')"
    using assms(2) by simp
  have h3: "CHR ''/'' \<notin> set ''my_org''" by simp
  have e: "''GitHub/'' @
              (if ''my_org'' = [] then ''unknown_org'' else underscores_to_spaces (trim ''my_org'')) @ ''/'' @
              (if line_head ''my_repo'' = [] then ''unknown_repo''
               else underscores_to_spaces (trim (line_head ''my_repo''))) = ''GitHub/my org/my repo''"
    by code_simp
  from github_label_slash [OF assms(1) h2 h3, of cre g] show ?thesis by (simp only: e)
qed

theorem github_scenario_witness:
  "js_match True rx_github_list_id 2
     (raw (mk_message (''Subject: x'' @ [cr, nl] @
                       ''List-ID: my_org/my_repo <my_repo.my_org.github.com>'' @ [cr, nl] @
                       ''X-GitHub-Reason: mention''))) =
     Some [Some ''List-ID: my_org/my_repo <my_repo.my_org.github.com>'', Some ''my_org/my_repo''] \<and>
   grp [Some ''List-ID: my_org/my_repo <my_repo.my_org.github.com>'', Some ''my_org/my_repo''] 1 =
     Some ''my_org/my_repo'' \<and>
   github_label accept_all
     (mk_message (''Subject: x'' @ [cr, nl] @
                  ''List-ID: my_org/my_repo <my_repo.my_org.github.com>'' @ [cr, nl] @
                  ''X-GitHub-Reason: mention'')) empty_store =
     getOrCreateLabelHierarchy accept_all ''GitHub/my org/my repo'' ''/'' empty_store \<and>
   getOrCreateLabelHierarchy accept_all ''GitHub/my org/my repo'' ''/'' empty_store =
     (Inr (Some (Label ''GitHub/my org/my repo'')),
      \<lparr>user_labels = [''GitHub'', ''GitHub/my org'', ''GitHub/my org/my repo''],
       calls = [], console = []\<rparr>)"
proof -
  have h1: "js_match True rx_github_list_id 2
     (raw (mk_message (''Subject: x'' @ [cr, nl] @
                       ''List-ID: my_org/my_repo <my_repo.my_org.github.com>'' @ [cr, nl] @
                       ''X-GitHub-Reason: mention''))) =
     Some [Some ''List-ID: my_org/my_repo <my_repo.my_org.github.com>'', Some ''my_org/my_repo'']"
    by code_simp
  have h2: "grp [Some ''List-ID: my_org/my_repo <my_repo.my_org.github.com>'', Some ''my_org/my_repo''] 1 =
     Some ''my_org/my_repo''"
    by code_simp
  have v: "getOrCreateLabelHierarchy accept_all ''GitHub/my org/my repo'' ''/'' empty_store =
     (Inr (Some (Label ''GitHub/my org/my repo'')),
      \<lparr>user_labels = [''GitHub'', ''GitHub/my org'', ''GitHub/my org/my repo''],
       calls = [], console = []\<rparr>)"
    by code_simp
  from github_scenario [OF h1 h2, of accept_all empty_store] h1 h2 v show ?thesis by blast
qed

text \<open>
  C2 as stated fails: in \<open>List-ID: my_repo.my_org <my_org/my_repo.github.com>\<close> the text
  before the angle bracket has no slash, and the result is none.
\<close>

theorem github_scenario_counterexample:
  "fst (github_label accept_all
          (mk_message ''List-ID: my_repo.my_org <my_org/my_repo.github.com>'') empty_store) = Inr None"
  by code_simp

subsection \<open>C3: importance of a Bugzilla message\<close>

text \<open>
  C3 at the input where the code departs from it. The value of \<open>X-Bugzilla-Reason\<close> is
  \<open>None\<close> in the quoted-printable wrapper. The pattern has no literal question mark, so
  the wrapper group does not match; group 2 is the single character \<open>=\<close>, which is not
  \<open>None\<close>, and the message counts as important. The same value without the wrapper
  does not.
\<close>

theorem bugzilla_wrapped_none_is_important:
  "js_match True (rx_bugzilla_value ''X-Bugzilla-Reason: '') 4 ''X-Bugzilla-Reason: =?UTF-8?Q?None?='' =
     Some [Some ''X-Bugzilla-Reason: ='', None, Some ''='', None] \<and>
   bugzilla_isImportantMessage (mk_message ''X-Bugzilla-Reason: =?UTF-8?Q?None?='') = True \<and>
   bugzilla_isImportantMessage (mk_message ''X-Bugzilla-Reason: None'') = False"
  by code_simp

subsection \<open>C4: the segments of a GitLab project path\<close>

text \<open>
  C4 at the input where the code departs from it. The segment \<open>x\<close> is neither empty nor
  blank, yet the test \<open>length > 1\<close> drops it from the label path.
\<close>

theorem gitlab_single_character_segment:
  "gitlab_path ''X-GitLab-Project-Path: eclipse/x/website'' = ''gitlab.eclipse.org/eclipse/website''"
  by code_simp

subsection \<open>C5: importance of a thread\<close>

text \<open>
  C5, as amended. For a thread whose deduplicated label set is not empty, the calls
  \<open>run\<close> makes on it are one \<open>addLabel\<close> for each label and then \<open>markImportant\<close> and
  \<open>moveToInbox\<close> if some message satisfies \<open>isImportantMessage\<close> of the filter,
  \<open>markUnimportant\<close> and \<open>moveToArchive\<close> otherwise.
\<close>

theorem important_iff_some_message:
  assumes "findLabels f cre t g = (Inr found, gm)" and "uniqLabels found \<noteq> []"
  shows "fst (process_thread f cre t g) = Inr () \<and>
         calls (snd (process_thread f cre t g)) =
           calls g @ map (\<lambda>l. AddLabel (tid t) (getName l)) (uniqLabels found) @
           (if \<exists>m \<in> set (messages t). isImportantMessage f m
            then [MarkImportant (tid t), MoveToInbox (tid t)]
            else [MarkUnimportant (tid t), MoveToArchive (tid t)])"
proof -
  from findLabels_calls [of f cre t g] assms(1) have "calls gm = calls g" by simp
  with assms show ?thesis
    by (simp add: process_thread_def Let_def fold_apply_label_calls list_ex_iff
        console_info_def markImportant_def markUnimportant_def moveToInbox_def moveToArchive_def)
qed

theorem important_iff_some_message_witness:
  "findLabels (GitHubFilter 16) accept_all github_thread empty_store =
     (Inr [Some (Label ''GitHub/org/repo''), Some (Label ''GitHub/org/repo'')], github_store) \<and>
   uniqLabels [Some (Label ''GitHub/org/repo''), Some (Label ''GitHub/org/repo'')] \<noteq> [] \<and>
   fst (process_thread (GitHubFilter 16) accept_all github_thread empty_store) = Inr () \<and>
   calls (snd (process_thread (GitHubFilter 16) accept_all github_thread empty_store)) =
     [AddLabel ''t3'' ''GitHub/org/repo'', MarkImportant ''t3'', MoveToInbox ''t3'']"
proof -
  have h1: "findLabels (GitHubFilter 16) accept_all github_thread empty_store =
     (Inr [Some (Label ''GitHub/org/repo''), Some (Label ''GitHub/org/repo'')], github_store)"
    by code_simp
  have h2: "uniqLabels [Some (Label ''GitHub/org/repo''), Some (Label ''GitHub/org/repo'')] \<noteq> []"
    by code_simp
  have e: "calls empty_store @
           map (\<lambda>l. AddLabel (tid github_thread) (getName l))
             (uniqLabels [Some (Label ''GitHub/org/repo''), Some (Label ''GitHub/org/repo'')]) @
           (if \<exists>m \<in> set (messages github_thread). isImportantMessage (GitHubFilter 16) m
            then [MarkImportant (tid github_thread), MoveToInbox (tid github_thread)]
            else [MarkUnimportant (tid github_thread), MoveToArchive (tid github_thread)]) =
           [AddLabel ''t3'' ''GitHub/org/repo'', MarkImportant ''t3'', MoveToInbox ''t3'']"
    by code_simp
  from important_iff_some_message [OF h1 h2] have
    "fst (process_thread (GitHubFilter 16) accept_all github_thread empty_store) = Inr ()" and
    "calls (snd (process_thread (GitHubFilter 16) accept_all github_thread empty_store)) =
       [AddLabel ''t3'' ''GitHub/org/repo'', MarkImportant ''t3'', MoveToInbox ''t3'']"
    by (simp_all only: e)
  with h1 h2 show ?thesis by blast
qed

text \<open>
  C5 as stated fails for a thread without labels: the only message of the thread
  satisfies the predicate of \<open>GitHubFilter\<close>, and \<open>run\<close> makes no call on the thread.
\<close>

theorem important_without_labels_counterexample:
  "list_ex (isImportantMessage (GitHubFilter 16)) (messages unlabelled_thread) \<and>
   fst (process_thread (GitHubFilter 16) accept_all unlabelled_thread empty_store) = Inr () \<and>
   calls (snd (process_thread (GitHubFilter 16) accept_all unlabelled_thread empty_store)) = []"
  by code_simp

subsection \<open>C6: each label once\<close>

text \<open>
  C6. When \<open>findLabels\<close> returns, the names of the labels \<open>run\<close> applies to the thread are
  pairwise different, and among the calls \<open>run\<close> makes on the thread, \<open>addLabel\<close> with the
  label named \<open>n\<close> occurs once if some message resolved to a label of that name, and not
  at all otherwise.
\<close>

theorem each_label_added_once:
  assumes "findLabels f cre t g = (Inr found, gm)"
  shows "distinct (map getName (uniqLabels found)) \<and>
         count_list (drop (length (calls g)) (calls (snd (process_thread f cre t g))))
           (AddLabel (tid t) n) =
         (if \<exists>l. Some l \<in> set found \<and> getName l = n then 1 else 0)"
proof -
  let ?names = "map getName (uniqLabels found)"
  have names: "n \<in> set ?names \<longleftrightarrow> (\<exists>l. Some l \<in> set found \<and> getName l = n)"
    using uniqLabels_complete [of _ found] uniqLabels_sound [of _ found] by auto
  have cnt: "count_list ?names n = (if n \<in> set ?names then 1 else 0)"
    using distinct_count_list [OF uniqLabels_distinct, of n found] count_list_notin [of n ?names]
    by simp
  have inj: "inj (AddLabel (tid t))" by (simp add: inj_def)
  have adds: "count_list (map (\<lambda>l. AddLabel (tid t) (getName l)) (uniqLabels found)) (AddLabel (tid t) n)
                = count_list ?names n"
    using count_list_map_inj [OF inj, of ?names n] by (simp add: comp_def)
  from process_thread_new_calls [OF assms] obtain tail where
    new: "drop (length (calls g)) (calls (snd (process_thread f cre t g))) =
            map (\<lambda>l. AddLabel (tid t) (getName l)) (uniqLabels found) @ tail" and
    tail: "set tail \<subseteq> {MarkImportant (tid t), MoveToInbox (tid t),
                         MarkUnimportant (tid t), MoveToArchive (tid t)}"
    by blast
  from tail have "AddLabel (tid t) n \<notin> set tail" by auto
  then have "count_list tail (AddLabel (tid t) n) = 0" by (rule count_list_notin)
  with new adds cnt names uniqLabels_distinct [of found] show ?thesis by simp
qed

theorem each_label_added_once_witness:
  "findLabels (GitHubFilter 16) accept_all github_thread empty_store =
     (Inr [Some (Label ''GitHub/org/repo''), Some (Label ''GitHub/org/repo'')], github_store) \<and>
   distinct (map getName (uniqLabels [Some (Label ''GitHub/org/repo''), Some (Label ''GitHub/org/repo'')])) \<and>
   count_list (drop (length (calls empty_store))
       (calls (snd (process_thread (GitHubFilter 16) accept_all github_thread empty_store))))
     (AddLabel (tid github_thread) ''GitHub/org/repo'') = 1"
proof -
  have h1: "findLabels (GitHubFilter 16) accept_all github_thread empty_store =
     (Inr [Some (Label ''GitHub/org/repo''), Some (Label ''GitHub/org/repo'')], github_store)"
    by code_simp
  have e: "(if \<exists>l. Some l \<in> set [Some (Label ''GitHub/org/repo''), Some (Label ''GitHub/org/repo'')] \<and>
                getName l = ''GitHub/org/repo'' then 1 else 0) = (1::nat)"
    by auto
  from each_label_added_once [OF h1, of "''GitHub/org/repo''"] h1 show ?thesis
    by (simp only: e)
qed

subsection \<open>C7: a thread without labels\<close>

text \<open>
  C7. When the deduplicated label set is empty, \<open>run\<close> adds one line to the console, the
  error that names the subject and the identifier of the thread, and nothing else:
  the calls on threads are those made before, and every message yielded none.
\<close>

theorem no_labels_no_mutation:
  assumes "findLabels f cre t g = (Inr found, gm)" and "uniqLabels found = []"
  shows "process_thread f cre t g =
           (Inr (), gm\<lparr>console := console gm @
              [ConsoleError (''No labels found for thread '' @ thread_ref t)]\<rparr>) \<and>
         calls gm = calls g \<and> (\<forall>x \<in> set found. x = None)"
proof -
  from findLabels_calls [of f cre t g] assms(1) have "calls gm = calls g" by simp
  moreover from assms(2) have "\<forall>x \<in> set found. x = None" by (simp add: uniqLabels_empty_iff)
  ultimately show ?thesis using assms by (simp add: process_thread_def console_error_def)
qed

theorem no_labels_no_mutation_witness:
  "findLabels (GitHubFilter 16) accept_all unlabelled_thread empty_store =
     (Inr [None], console_warn (''Cannot find List-ID from message '' @ quoted ''subject'' @
        '' on date'') empty_store) \<and>
   uniqLabels [None] = [] \<and>
   process_thread (GitHubFilter 16) accept_all unlabelled_thread empty_store =
     (Inr (), \<lparr>user_labels = [], calls = [],
        console = [ConsoleWarn (''Cannot find List-ID from message '' @ quoted ''subject'' @ '' on date''),
                   ConsoleError (''No labels found for thread '' @ quoted ''subject'' @
                     '' (id='' @ quoted ''t4'' @ '')'')]\<rparr>)"
proof -
  have h1: "findLabels (GitHubFilter 16) accept_all unlabelled_thread empty_store =
     (Inr [None], console_warn (''Cannot find List-ID from message '' @ quoted ''subject'' @
        '' on date'') empty_store)"
    by code_simp
  have h2: "uniqLabels [None] = []" by code_simp
  have e: "(console_warn (''Cannot find List-ID from message '' @ quoted ''subject'' @
        '' on date'') empty_store)\<lparr>console := console (console_warn (''Cannot find List-ID from message '' @ quoted ''subject'' @
        '' on date'') empty_store) @
              [ConsoleError (''No labels found for thread '' @ thread_ref unlabelled_thread)]\<rparr> =
     \<lparr>user_labels = [], calls = [],
        console = [ConsoleWarn (''Cannot find List-ID from message '' @ quoted ''subject'' @ '' on date''),
                   ConsoleError (''No labels found for thread '' @ quoted ''subject'' @
                     '' (id='' @ quoted ''t4'' @ '')'')]\<rparr>"
    by (simp add: console_warn_def empty_store_def thread_ref_def unlabelled_thread_def mk_thread_def)
  from no_labels_no_mutation [OF h1 h2] have
    "process_thread (GitHubFilter 16) accept_all unlabelled_thread empty_store =
     (Inr (), \<lparr>user_labels = [], calls = [],
        console = [ConsoleWarn (''Cannot find List-ID from message '' @ quoted ''subject'' @ '' on date''),
                   ConsoleError (''No labels found for thread '' @ quoted ''subject'' @
                     '' (id='' @ quoted ''t4'' @ '')'')]\<rparr>)"
    by (simp only: e)
  with h1 h2 show ?thesis by blast
qed

subsection \<open>C8: resolving a path twice\<close>

text \<open>
  C8. When \<open>_getOrCreateLabelHierarchy\<close> returns for a path, calling it again in the store
  it left returns the same label and leaves that store as it is: no label is created,
  nothing is logged.
\<close>

theorem hierarchy_twice:
  assumes "getOrCreateLabelHierarchy cre labelName separator g = (Inr l, g')"
  shows "getOrCreateLabelHierarchy cre labelName separator g' = (Inr l, g')"
  using assms by (rule hierarchy_idem)

theorem hierarchy_twice_witness:
  "getOrCreateLabelHierarchy accept_all ''GitHub/org/repo'' ''/'' empty_store =
     (Inr (Some (Label ''GitHub/org/repo'')), github_store) \<and>
   getOrCreateLabelHierarchy accept_all ''GitHub/org/repo'' ''/'' github_store =
     (Inr (Some (Label ''GitHub/org/repo'')), github_store)"
proof -
  have h: "getOrCreateLabelHierarchy accept_all ''GitHub/org/repo'' ''/'' empty_store =
     (Inr (Some (Label ''GitHub/org/repo'')), github_store)"
    by code_simp
  from hierarchy_twice [OF h] h show ?thesis by blast
qed

subsection \<open>C9: placeholders for an empty organisation or repository\<close>

text \<open>
  C9. Let the \<open>List-ID\<close> pattern match with \<open>listId[1]\<close> the text \<open>org/repo\<close>, \<open>org\<close> the
  part before its first slash, and one of the two parts empty. Then \<open>findLabels\<close> does
  not yield none for the message: it resolves the label path \<open>GitHub/<org>/<repo>\<close> in
  which \<open>unknown_org\<close> or \<open>unknown_repo\<close> stands for the empty part.
\<close>

theorem github_placeholders:
  assumes "js_match True rx_github_list_id 2 (raw m) = Some a"
    and "grp a 1 = Some (org @ CHR ''/'' # repo)"
    and "CHR ''/'' \<notin> set org"
    and "org = [] \<or> repo = []"
  shows "github_label cre m g =
           getOrCreateLabelHierarchy cre
             (''GitHub/'' @
              (if org = [] then ''unknown_org'' else underscores_to_spaces (trim org)) @ ''/'' @
              (if repo = [] then ''unknown_repo''
               else if line_head repo = [] then ''unknown_repo''
               else underscores_to_spaces (trim (line_head repo)))) ''/'' g \<and>
         fst (github_label cre m g) \<noteq> Inr None"
  using github_label_slash [OF assms(1-3), of cre g] hierarchy_not_null
  by (simp add: line_head_def)

theorem github_placeholders_witness:
  "js_match True rx_github_list_id 2 (raw (mk_message ''List-ID: org/ <repo.org.github.com>'')) =
     Some [Some ''List-ID: org/ <repo.org.github.com>'', Some ''org/''] \<and>
   grp [Some ''List-ID: org/ <repo.org.github.com>'', Some ''org/''] 1 = Some (''org'' @ CHR ''/'' # []) \<and>
   CHR ''/'' \<notin> set ''org'' \<and>
   github_label accept_all (mk_message ''List-ID: org/ <repo.org.github.com>'') empty_store =
     getOrCreateLabelHierarchy accept_all ''GitHub/org/unknown_repo'' ''/'' empty_store \<and>
   fst (github_label accept_all (mk_message ''List-ID: org/ <repo.org.github.com>'') empty_store) \<noteq>
     Inr None"
proof -
  have h1: "js_match True rx_github_list_id 2 (raw (mk_message ''List-ID: org/ <repo.org.github.com>'')) =
     Some [Some ''List-ID: org/ <repo.org.github.com>'', Some ''org/'']"
    by code_simp
  have h2: "grp [Some ''List-ID: org/ <repo.org.github.com>'', Some ''org/''] 1 =
     Some (''org'' @ CHR ''/'' # [])"
    by code_simp
  have h3: "CHR ''/'' \<notin> set ''org''" by simp
  have h4: "''org'' = [] \<or> ([]::string) = []" by simp
  have e: "''GitHub/'' @
              (if ''org'' = [] then ''unknown_org'' else underscores_to_spaces (trim ''org'')) @ ''/'' @
              (if ([]::string) = [] then ''unknown_repo''
               else if line_head [] = [] then ''unknown_repo''
               else underscores_to_spaces (trim (line_head []))) = ''GitHub/org/unknown_repo''"
    by code_simp
  note r = github_placeholders [OF h1 h2 h3 h4, of accept_all empty_store]
  from r [THEN conjunct1] have a:
    "github_label accept_all (mk_message ''List-ID: org/ <repo.org.github.com>'') empty_store =
     getOrCreateLabelHierarchy accept_all ''GitHub/org/unknown_repo'' ''/'' empty_store"
    unfolding e .
  from r [THEN conjunct2] have b:
    "fst (github_label accept_all (mk_message ''List-ID: org/ <repo.org.github.com>'') empty_store) \<noteq>
     Inr None" .
  from h1 h2 h3 a b show ?thesis by blast
qed

subsection \<open>C10: the fallback label of a bulk relay\<close>

text \<open>
  C10 at the input where the code departs from it. The message has the Jenkins marker
  and no \<open>List-ID\<close>; its \<open>From\<close> header names an address at \<open>example.com\<close>, without
  angle brackets. The class \<open>[^<]\<close> of the pattern runs over the end of the line, up to
  the address in the \<open>To\<close> header, and the message gets the fallback label of \<open>bob\<close>.
\<close>

theorem mailman_other_sender_domain:
  "mailman_label accept_all
     (mk_message (''X-Jenkins-Result: SUCCESS'' @ [cr, nl] @
                  ''From: alice@example.com'' @ [cr, nl] @
                  ''To: Bob <bob@eclipse.org>'')) empty_store =
   (Inr (Some (Label ''Eclipse Lists/HubSpot Lists/bob'')),
    \<lparr>user_labels = [''Eclipse Lists'', ''Eclipse Lists/HubSpot Lists'',
                     ''Eclipse Lists/HubSpot Lists/bob''],
     calls = [], console = []\<rparr>)"
  by code_simp

end
